theory Spec2Isabelle
  imports Complex_Main "HOL-Library.Multiset"
begin

section \<open>Jitter calculator (applyJitter)\<close>



section \<open>Generic async task executor\<close>

text \<open>
  A task result, as the struct \<^verbatim>\<open>AsyncTaskResult[T]\<close>. The error is a string, empty
  when the task function returned no error.
\<close>

record 'a AsyncTaskResult =
  TaskID :: string
  Result :: 'a
  Error :: string
  StartedAt :: int
  EndedAt :: int
  DurationMs :: int

text \<open>
  The closure that \<^verbatim>\<open>Submit\<close> hands to the worker pool captures the task identifier, the
  delay computed at submission and the task function. The task function is kept as a
  value of the type parameter \<open>'f\<close>: what it returns is supplied when the closure runs.
\<close>

datatype 'f job = Job (job_id: string) (job_delay: real) (job_func: 'f)

text \<open>
  The executor. The worker pool is a library outside the repository: its state is
  modelled by the closures it has accepted and that have not yet appended a result
  (\<open>pool\<close>), and by the number of workers that have appended their result and not yet
  executed the final atomic decrement (\<open>finishing\<close>). The 64-bit counter is an
  unbounded integer: it changes by one per call and by one per closure.
\<close>

record ('a, 'f) AsyncTaskExecutor =
  name :: string
  poolSize :: int
  pool :: "'f job list"
  finishing :: nat
  results :: "'a AsyncTaskResult list"
  pendingCount :: int

definition NewAsyncTaskExecutor :: "string \<Rightarrow> int \<Rightarrow> ('a, 'f) AsyncTaskExecutor" where
  "NewAsyncTaskExecutor nm sz =
     \<lparr>name = nm, poolSize = (if sz \<le> 0 then 100000 else sz),
      pool = [], finishing = 0, results = [], pendingCount = 0\<rparr>"

text \<open>
  The delay that \<^verbatim>\<open>Submit\<close> computes: the nominal delay with a jitter of 20 percent,
  never negative, and zero when the nominal delay is not positive.
\<close>

definition actualDelay :: "int \<Rightarrow> real \<Rightarrow> real" where
  "actualDelay delaySeconds rnd =
     (if delaySeconds > 0 then
        let jitter = real_of_int delaySeconds * 0.2;
            d = real_of_int delaySeconds + (rnd * 2 - 1) * jitter
        in if d < 0 then 0 else d
      else 0)"

text \<open>
  \<^verbatim>\<open>Submit\<close>: the counter is incremented first, then the closure is handed to the pool.
  Whether the pool accepts it is the pool's decision: \<open>poolErr\<close> is the error it returns,
  \<open>None\<close> when it accepts. The error is returned to the caller as it is. The pool is
  taken to exist: its creation on first use, which panics when the library refuses to
  create it, is not part of the model.
\<close>

definition Submit ::
  "string \<Rightarrow> int \<Rightarrow> 'f \<Rightarrow> real \<Rightarrow> string option \<Rightarrow> ('a, 'f) AsyncTaskExecutor
     \<Rightarrow> string option \<times> ('a, 'f) AsyncTaskExecutor" where
  "Submit taskID delaySeconds taskFunc rnd poolErr e =
     (let e1 = e\<lparr>pendingCount := pendingCount e + 1\<rparr>
      in case poolErr of
           None \<Rightarrow> (None, e1\<lparr>pool := pool e1 @ [Job taskID (actualDelay delaySeconds rnd) taskFunc]\<rparr>)
         | Some err \<Rightarrow> (Some err, e1))"

text \<open>
  The closure's body up to the release of the results lock: worker \<open>i\<close> of the pool has
  slept, has run the task function (which returned \<open>res\<close> and the error \<open>err\<close>, between
  the clock readings \<open>startedAt\<close> and \<open>endedAt\<close>) and appends the task result to the
  buffer. The step is not enabled (\<open>None\<close>) when the pool holds no closure \<open>i\<close>.
\<close>

definition worker_append ::
  "nat \<Rightarrow> 'a \<Rightarrow> string option \<Rightarrow> int \<Rightarrow> int \<Rightarrow> ('a, 'f) AsyncTaskExecutor
     \<Rightarrow> ('a AsyncTaskResult \<times> ('a, 'f) AsyncTaskExecutor) option" where
  "worker_append i res err startedAt endedAt e =
     (if i < length (pool e) then
        let taskResult =
              \<lparr>TaskID = job_id (pool e ! i), Result = res,
               Error = (case err of None \<Rightarrow> [] | Some msg \<Rightarrow> msg),
               StartedAt = startedAt, EndedAt = endedAt, DurationMs = endedAt - startedAt\<rparr>
        in Some (taskResult,
                 e\<lparr>pool := take i (pool e) @ drop (Suc i) (pool e),
                   finishing := Suc (finishing e),
                   results := results e @ [taskResult]\<rparr>)
      else None)"

text \<open>The last statement of the closure: the atomic decrement of the counter.\<close>

definition worker_done :: "('a, 'f) AsyncTaskExecutor \<Rightarrow> ('a, 'f) AsyncTaskExecutor option" where
  "worker_done e =
     (if 0 < finishing e
      then Some (e\<lparr>finishing := finishing e - 1, pendingCount := pendingCount e - 1\<rparr>)
      else None)"

definition GetPendingCount :: "('a, 'f) AsyncTaskExecutor \<Rightarrow> int" where
  "GetPendingCount e = pendingCount e"

text \<open>
  \<^verbatim>\<open>GetResults\<close>, one critical section under the results lock. Go's nil slice and the
  empty slice are both the empty list.
\<close>

definition GetResults ::
  "('a, 'f) AsyncTaskExecutor \<Rightarrow> 'a AsyncTaskResult list \<times> ('a, 'f) AsyncTaskExecutor" where
  "GetResults e =
     (if length (results e) = 0 then ([], e)
      else (results e, e\<lparr>results := []\<rparr>))"

subsection \<open>Interleavings of the executor's atomic steps\<close>

text \<open>
  The shared state of one executor is changed only by the atomic steps above. A run is
  a sequence of such steps, in the order in which they take effect:
  a call of \<^verbatim>\<open>Submit\<close>, a worker appending its result, a worker decrementing the counter,
  and a call of \<^verbatim>\<open>GetResults\<close>.
\<close>

datatype ('a, 'f) event =
    ESubmit string int 'f real "string option"
  | EAppend nat 'a "string option" int int
  | EDone
  | EGetResults

text \<open>
  What a run has observed so far: the lists returned by the calls of \<^verbatim>\<open>GetResults\<close>
  (oldest first) and the task results appended by workers (oldest first).
\<close>

record 'a observed =
  drains :: "'a AsyncTaskResult list list"
  appended :: "'a AsyncTaskResult list"

fun step ::
  "('a, 'f) event \<Rightarrow> 'a observed \<times> ('a, 'f) AsyncTaskExecutor
     \<Rightarrow> ('a observed \<times> ('a, 'f) AsyncTaskExecutor) option" where
  "step (ESubmit taskID delaySeconds taskFunc rnd poolErr) (ob, e) =
     Some (ob, snd (Submit taskID delaySeconds taskFunc rnd poolErr e))"
| "step (EAppend i res err startedAt endedAt) (ob, e) =
     (case worker_append i res err startedAt endedAt e of
        None \<Rightarrow> None
      | Some (r, e') \<Rightarrow> Some (ob\<lparr>appended := appended ob @ [r]\<rparr>, e'))"
| "step EDone (ob, e) =
     (case worker_done e of None \<Rightarrow> None | Some e' \<Rightarrow> Some (ob, e'))"
| "step EGetResults (ob, e) =
     (case GetResults e of (rs, e') \<Rightarrow> Some (ob\<lparr>drains := drains ob @ [rs]\<rparr>, e'))"

fun run ::
  "('a, 'f) event list \<Rightarrow> 'a observed \<times> ('a, 'f) AsyncTaskExecutor
     \<Rightarrow> ('a observed \<times> ('a, 'f) AsyncTaskExecutor) option" where
  "run [] s = Some s"
| "run (ev # evs) s = (case step ev s of None \<Rightarrow> None | Some s' \<Rightarrow> run evs s')"

definition no_observations :: "'a observed" where
  "no_observations = \<lparr>drains = [], appended = []\<rparr>"

fun is_submit :: "('a, 'f) event \<Rightarrow> bool" where
  "is_submit (ESubmit _ _ _ _ _) = True"
| "is_submit _ = False"

fun is_rejected :: "('a, 'f) event \<Rightarrow> bool" where
  "is_rejected (ESubmit _ _ _ _ (Some _)) = True"
| "is_rejected _ = False"

fun is_append :: "('a, 'f) event \<Rightarrow> bool" where
  "is_append (EAppend _ _ _ _ _) = True"
| "is_append _ = False"

fun is_done :: "('a, 'f) event \<Rightarrow> bool" where
  "is_done EDone = True"
| "is_done _ = False"

definition count_events :: "(('a, 'f) event \<Rightarrow> bool) \<Rightarrow> ('a, 'f) event list \<Rightarrow> nat" where
  "count_events p evs = length (filter p evs)"

section \<open>Token cache (tokenManager)\<close>

text \<open>
  A point in time is an integer number of nanoseconds; \<open>time.Now()\<close> is a parameter of
  each step that reads the clock.
\<close>

definition second :: int where
  "second = 1000000000"

definition minute :: int where
  "minute = 60 * second"

record tokenCache =
  token :: string
  expiresAt :: int

record tokenManager =
  cache :: "string \<rightharpoonup> tokenCache"

text \<open>
  The reply of the remote call \<^verbatim>\<open>AcquireSandboxInstanceToken\<close>: an error, or a response
  whose inner \<^verbatim>\<open>Response\<close> may be nil and whose \<^verbatim>\<open>Token\<close> and \<^verbatim>\<open>ExpiresAt\<close> may be nil.
\<close>

record token_response =
  Token :: "string option"
  ExpiresAt :: "string option"

datatype acquire_result = AcquireError string | AcquireOK "token_response option"

text \<open>
  The condition both checks of getToken evaluate:
  \<^verbatim>\<open>c, ok := tm.cache[instanceID]; ok && time.Now().Add(30*time.Second).Before(c.expiresAt)\<close>.
\<close>

definition cache_fresh :: "int \<Rightarrow> tokenCache option \<Rightarrow> bool" where
  "cache_fresh now c = (case c of None \<Rightarrow> False | Some c \<Rightarrow> now + 30 * second < expiresAt c)"

text \<open>The first critical section of getToken, under the read lock.\<close>

definition getToken_read :: "int \<Rightarrow> string \<Rightarrow> tokenManager \<Rightarrow> string option" where
  "getToken_read now instanceID tm =
     (if cache_fresh now (cache tm instanceID)
      then Some (token (the (cache tm instanceID)))
      else None)"

text \<open>
  The second critical section, under the exclusive lock: the check again (clock reading
  \<open>now\<close>), then the remote call, whose reply is \<open>acquire instanceID\<close>, and the update of
  the cache; \<open>now'\<close> is the clock reading for the default expiry and \<open>parseTime\<close> is
  \<^verbatim>\<open>time.Parse(time.RFC3339Nano, _)\<close>. The result is the returned token or error
  (\<open>Inl\<close> the error), whether the remote call was made, and the manager afterwards.
\<close>

definition getToken_locked ::
  "(string \<Rightarrow> int option) \<Rightarrow> (string \<Rightarrow> acquire_result) \<Rightarrow> int \<Rightarrow> int \<Rightarrow> string
     \<Rightarrow> tokenManager \<Rightarrow> (string + string) \<times> bool \<times> tokenManager" where
  "getToken_locked parseTime acquire now now' instanceID tm =
     (if cache_fresh now (cache tm instanceID)
      then (Inr (token (the (cache tm instanceID))), False, tm)
      else
        case acquire instanceID of
          AcquireError err \<Rightarrow> (Inl (''failed to acquire token: '' @ err), True, tm)
        | AcquireOK None \<Rightarrow> (Inl ''empty token response'', True, tm)
        | AcquireOK (Some response) \<Rightarrow>
            (case Token response of
               None \<Rightarrow> (Inl ''empty token response'', True, tm)
             | Some tok \<Rightarrow>
                 let expires =
                       (case ExpiresAt response of
                          None \<Rightarrow> now' + 5 * minute
                        | Some s \<Rightarrow>
                            (case parseTime s of
                               Some t \<Rightarrow> t
                             | None \<Rightarrow> now' + 5 * minute))
                 in (Inr tok, True,
                     tm\<lparr>cache := (cache tm)(instanceID \<mapsto> \<lparr>token = tok, expiresAt = expires\<rparr>)\<rparr>)))"

text \<open>
  One call of getToken with no other caller between its two critical sections. The
  clock is read at \<open>now1\<close> in the first check, at \<open>now2\<close> in the second and at \<open>now3\<close>
  for the default expiry.
\<close>

definition getToken ::
  "(string \<Rightarrow> int option) \<Rightarrow> (string \<Rightarrow> acquire_result) \<Rightarrow> int \<Rightarrow> int \<Rightarrow> int \<Rightarrow> string
     \<Rightarrow> tokenManager \<Rightarrow> (string + string) \<times> bool \<times> tokenManager" where
  "getToken parseTime acquire now1 now2 now3 instanceID tm =
     (case getToken_read now1 instanceID tm of
        Some tok \<Rightarrow> (Inr tok, False, tm)
      | None \<Rightarrow> getToken_locked parseTime acquire now2 now3 instanceID tm)"

subsection \<open>Concurrent callers of getToken\<close>

text \<open>
  Several callers ask for the token of the same instance. Each caller runs the first
  critical section and, on a miss, the second one; the lock makes each section one
  atomic step, and the sections of different callers interleave in any order. The
  \<open>k\<close>-th remote call made by the system is answered by \<open>acquire k\<close>.
\<close>

datatype caller_state = NotStarted | Missed | Returned "string + string"

record token_system =
  manager :: tokenManager
  callers :: "nat \<Rightarrow> caller_state"
  remoteCalls :: nat

text \<open>A step: a caller and the two clock readings available to its section.\<close>

fun token_step ::
  "(string \<Rightarrow> int option) \<Rightarrow> (nat \<Rightarrow> string \<Rightarrow> acquire_result) \<Rightarrow> string
     \<Rightarrow> nat \<times> int \<times> int \<Rightarrow> token_system \<Rightarrow> token_system option" where
  "token_step parseTime acquire instanceID (c, now, now') sys =
     (case callers sys c of
        NotStarted \<Rightarrow>
          (case getToken_read now instanceID (manager sys) of
             Some tok \<Rightarrow> Some (sys\<lparr>callers := (callers sys)(c := Returned (Inr tok))\<rparr>)
           | None \<Rightarrow> Some (sys\<lparr>callers := (callers sys)(c := Missed)\<rparr>))
      | Missed \<Rightarrow>
          (case getToken_locked parseTime (acquire (remoteCalls sys)) now now' instanceID (manager sys) of
             (res, called, tm') \<Rightarrow>
               Some (sys\<lparr>manager := tm',
                         callers := (callers sys)(c := Returned res),
                         remoteCalls := remoteCalls sys + (if called then 1 else 0)\<rparr>))
      | Returned _ \<Rightarrow> None)"

fun token_run ::
  "(string \<Rightarrow> int option) \<Rightarrow> (nat \<Rightarrow> string \<Rightarrow> acquire_result) \<Rightarrow> string
     \<Rightarrow> (nat \<times> int \<times> int) list \<Rightarrow> token_system \<Rightarrow> token_system option" where
  "token_run parseTime acquire instanceID [] sys = Some sys"
| "token_run parseTime acquire instanceID (st # sts) sys =
     (case token_step parseTime acquire instanceID st sys of
        None \<Rightarrow> None
      | Some sys' \<Rightarrow> token_run parseTime acquire instanceID sts sys')"

definition token_start :: "tokenManager \<Rightarrow> token_system" where
  "token_start tm = \<lparr>manager = tm, callers = (\<lambda>_. NotStarted), remoteCalls = 0\<rparr>"

text \<open>The expiry that a successful reply puts into the cache.\<close>

definition reply_expiry :: "(string \<Rightarrow> int option) \<Rightarrow> token_response \<Rightarrow> int \<Rightarrow> int" where
  "reply_expiry parseTime response now' =
     (case ExpiresAt response of
        None \<Rightarrow> now' + 5 * minute
      | Some s \<Rightarrow> (case parseTime s of Some t \<Rightarrow> t | None \<Rightarrow> now' + 5 * minute))"

text \<open>
  Every check of the schedule happens more than 30 seconds before the expiry that the
  reply puts into the cache, whichever step of the schedule stores it.
\<close>

definition step_fresh ::
  "(string \<Rightarrow> int option) \<Rightarrow> token_response \<Rightarrow> (nat \<times> int \<times> int) list \<Rightarrow> bool" where
  "step_fresh parseTime response sched =
     list_all (\<lambda>(c, now, now'). list_all (\<lambda>(c2, now2, now2'). now + 30 * second < reply_expiry parseTime response now2') sched) sched"


text \<open>
  The invariant of the concurrent runs in which the first remote call is answered with
  the token \<open>tok\<close>: either no remote call has been made, nothing is cached and no
  caller has returned; or exactly one remote call has been made, its token is cached
  with the expiry of the reply, and every caller that has returned has returned
  \<open>tok\<close>.
\<close>

definition token_inv ::
  "(string \<Rightarrow> int option) \<Rightarrow> token_response \<Rightarrow> string \<Rightarrow> string \<Rightarrow> (nat \<times> int \<times> int) list
     \<Rightarrow> token_system \<Rightarrow> bool" where
  "token_inv p response tok i sched sys =
     ((remoteCalls sys = 0 \<and> cache (manager sys) i = None
         \<and> (\<forall>c r. callers sys c \<noteq> Returned r))
      \<or> (remoteCalls sys = 1
         \<and> (\<exists>st \<in> set sched. cache (manager sys) i =
               Some \<lparr>token = tok, expiresAt = reply_expiry p response (snd (snd st))\<rparr>)
         \<and> (\<forall>c r. callers sys c = Returned r \<longrightarrow> r = Inr tok)))"

section \<open>Bounded retry batch processor (processRetries)\<close>

record failedTask =
  imageRef :: string
  retryCount :: int

text \<open>\<^verbatim>\<open>addFailedTask\<close>: one append to the retry queue, under the queue's lock.\<close>

definition addFailedTask :: "string \<Rightarrow> int \<Rightarrow> failedTask list \<Rightarrow> failedTask list" where
  "addFailedTask ref n failedQueue = failedQueue @ [\<lparr>imageRef = ref, retryCount = n\<rparr>]"

text \<open>
  The loop over the drained tasks in one retry round. It returns the tasks that were
  logged as over the maximum and skipped, and the arguments of the calls
  \<^verbatim>\<open>submitTask(ctx, task.imageRef, mode, task.retryCount+1)\<close>, in the order of the calls.
\<close>

fun retry_tasks :: "int \<Rightarrow> failedTask list \<Rightarrow> failedTask list \<times> failedTask list" where
  "retry_tasks maxRetries [] = ([], [])"
| "retry_tasks maxRetries (task # tasks) =
     (let (warned, submitted) = retry_tasks maxRetries tasks
      in if retryCount task \<ge> maxRetries then (task # warned, submitted)
         else (warned, \<lparr>imageRef = imageRef task, retryCount = retryCount task + 1\<rparr> # submitted))"

text \<open>
  \<^verbatim>\<open>p.wg.Wait()\<close>: every submitted task runs in a goroutine of its own, and the goroutines
  finish in an order the code does not fix. For the \<open>n\<close>-th goroutine to finish, the
  scheduler \<open>sched n\<close> picks one of those in flight and says whether its operation
  failed; a failed one calls \<^verbatim>\<open>addFailedTask(imageRef, retryCount)\<close> with the retry count it
  was submitted with. The wait is over when none is in flight.
\<close>

function wait_all ::
  "(nat \<Rightarrow> nat \<times> bool) \<Rightarrow> nat \<Rightarrow> failedTask list \<Rightarrow> failedTask list \<Rightarrow> failedTask list" where
  "wait_all sched n inflight failedQueue =
     (if inflight = [] then failedQueue
      else
        let k = fst (sched n) mod length inflight;
            t = inflight ! k
        in wait_all sched (Suc n) (take k inflight @ drop (Suc k) inflight)
             (if snd (sched n) then addFailedTask (imageRef t) (retryCount t) failedQueue
              else failedQueue))"
  by pat_completeness auto
termination
proof (relation "measure (\<lambda>(sched, n, inflight, failedQueue). length inflight)", goal_cases)
  case 1
  show ?case by simp
next
  case (2 sched n inflight failedQueue k t)
  then have "k < length inflight" by simp
  then show ?case by simp
qed

declare wait_all.simps [simp del]

text \<open>What one retry round did: the tasks it drained, those it skipped, those it submitted.\<close>

record retry_round =
  drained :: "failedTask list"
  warned :: "failedTask list"
  submitted :: "failedTask list"

text \<open>
  The weight of a queue, what is left of the retry budget of its tasks, decreases in
  every round; it is the measure for the termination of the retry loop.
\<close>

definition retry_weight :: "int \<Rightarrow> failedTask list \<Rightarrow> nat" where
  "retry_weight maxRetries q = (\<Sum>t\<leftarrow>q. Suc (nat (maxRetries - retryCount t)))"

lemma retry_weight_simps [simp]:
  "retry_weight m [] = 0"
  "retry_weight m (t # q) = Suc (nat (m - retryCount t)) + retry_weight m q"
  "retry_weight m (q @ q') = retry_weight m q + retry_weight m q'"
  by (simp_all add: retry_weight_def)

lemma retry_weight_remove:
  "k < length q \<Longrightarrow>
   retry_weight m (take k q @ drop (Suc k) q) + Suc (nat (m - retryCount (q ! k))) = retry_weight m q"
proof -
  assume "k < length q"
  then have "q = take k q @ (q ! k) # drop (Suc k) q" by (rule id_take_nth_drop)
  then have "retry_weight m q = retry_weight m (take k q @ (q ! k) # drop (Suc k) q)" by simp
  then show ?thesis by simp
qed

lemma wait_all_unfold:
  "inflight \<noteq> [] \<Longrightarrow>
   wait_all sched n inflight q =
     wait_all sched (Suc n)
       (take (fst (sched n) mod length inflight) inflight
          @ drop (Suc (fst (sched n) mod length inflight)) inflight)
       (if snd (sched n)
        then addFailedTask (imageRef (inflight ! (fst (sched n) mod length inflight)))
               (retryCount (inflight ! (fst (sched n) mod length inflight))) q
        else q)"
  by (subst wait_all.simps) (simp add: Let_def)

lemma wait_all_Nil [simp]: "wait_all sched n [] q = q"
  by (subst wait_all.simps) simp

lemma wait_all_weight:
  "retry_weight m (wait_all sched n inflight q) \<le> retry_weight m q + retry_weight m inflight"
proof (induction sched n inflight q rule: wait_all.induct)
  case (1 sched n inflight q)
  show ?case
  proof (cases "inflight = []")
    case True
    then show ?thesis by simp
  next
    case False
    let ?k = "fst (sched n) mod length inflight"
    have k: "?k < length inflight" using False by simp
    let ?q' = "if snd (sched n) then addFailedTask (imageRef (inflight ! ?k)) (retryCount (inflight ! ?k)) q else q"
    have ih: "retry_weight m (wait_all sched (Suc n) (take ?k inflight @ drop (Suc ?k) inflight) ?q')
              \<le> retry_weight m ?q' + retry_weight m (take ?k inflight @ drop (Suc ?k) inflight)"
      using "1.IH" [OF False refl refl] .
    have q': "retry_weight m ?q' \<le> retry_weight m q + Suc (nat (m - retryCount (inflight ! ?k)))"
      by (simp add: addFailedTask_def)
    have eq: "wait_all sched n inflight q
              = wait_all sched (Suc n) (take ?k inflight @ drop (Suc ?k) inflight) ?q'"
      by (rule wait_all_unfold [OF False])
    show ?thesis
      unfolding eq using ih q' retry_weight_remove [OF k, of m] by linarith
  qed
qed

lemma retry_tasks_weight:
  "tasks \<noteq> [] \<Longrightarrow> retry_weight m (snd (retry_tasks m tasks)) < retry_weight m tasks"
proof (induction tasks)
  case Nil
  then show ?case by simp
next
  case (Cons t ts)
  have le: "retry_weight m (snd (retry_tasks m ts)) \<le> retry_weight m ts"
  proof (cases "ts = []")
    case True
    then show ?thesis by simp
  next
    case False
    then show ?thesis using Cons.IH by simp
  qed
  show ?case
  proof (cases "retryCount t \<ge> m")
    case True
    then show ?thesis using le by (simp add: split_def Let_def)
  next
    case False
    then have "nat (m - (retryCount t + 1)) < nat (m - retryCount t)" by simp
    then show ?thesis using le False by (simp add: split_def Let_def)
  qed
qed

text \<open>
  The loop of \<^verbatim>\<open>processRetries\<close>, with the round number \<open>roundNo\<close>. It returns what
  each round did and the queue it found empty when it left the loop.
\<close>

function retry_rounds ::
  "(nat \<Rightarrow> nat \<Rightarrow> nat \<times> bool) \<Rightarrow> int \<Rightarrow> nat \<Rightarrow> failedTask list
     \<Rightarrow> retry_round list \<times> failedTask list" where
  "retry_rounds sched maxRetries roundNo failedQueue =
     (if length failedQueue = 0 then ([], failedQueue)
      else
        let tasks = failedQueue;
            (skipped, resubmitted) = retry_tasks maxRetries tasks;
            failedQueue' = wait_all (sched roundNo) 0 resubmitted [];
            (rounds, final) = retry_rounds sched maxRetries (Suc roundNo) failedQueue'
        in (\<lparr>drained = tasks, warned = skipped, submitted = resubmitted\<rparr> # rounds, final))"
  by pat_completeness auto
termination
proof (relation "measure (\<lambda>(sched, maxRetries, roundNo, failedQueue). retry_weight maxRetries failedQueue)")
  show "wf (measure (\<lambda>(sched, maxRetries, roundNo, failedQueue). retry_weight maxRetries failedQueue))"
    by simp
next
  fix sched :: "nat \<Rightarrow> nat \<Rightarrow> nat \<times> bool" and maxRetries :: int and roundNo :: nat
    and failedQueue tasks :: "failedTask list" and x skipped resubmitted failedQueue'
  assume ne: "length failedQueue \<noteq> 0" and t: "tasks = failedQueue"
    and x: "x = retry_tasks maxRetries tasks" "(skipped, resubmitted) = x"
    and q: "failedQueue' = wait_all (sched roundNo) 0 resubmitted []"
  have r: "resubmitted = snd (retry_tasks maxRetries failedQueue)"
    using x t by (metis snd_conv)
  have "retry_weight maxRetries failedQueue' \<le> retry_weight maxRetries resubmitted"
    unfolding q using wait_all_weight [of maxRetries "sched roundNo" 0 resubmitted "[]"] by simp
  also have "\<dots> < retry_weight maxRetries failedQueue"
    unfolding r using ne by (intro retry_tasks_weight) auto
  finally show "((sched, maxRetries, Suc roundNo, failedQueue'), (sched, maxRetries, roundNo, failedQueue))
      \<in> measure (\<lambda>(sched, maxRetries, roundNo, failedQueue). retry_weight maxRetries failedQueue)"
    by simp
qed

declare retry_rounds.simps [simp del]

text \<open>
  \<^verbatim>\<open>processRetries\<close>: the scheduler \<open>sched roundNo\<close> decides the completions of
  each round.
\<close>

definition processRetries ::
  "(nat \<Rightarrow> nat \<Rightarrow> nat \<times> bool) \<Rightarrow> int \<Rightarrow> failedTask list \<Rightarrow> retry_round list \<times> failedTask list" where
  "processRetries sched cfgMaxRetries failedQueue =
     (let maxRetries = (if cfgMaxRetries \<le> 0 then 3 else cfgMaxRetries)
      in retry_rounds sched maxRetries 1 failedQueue)"

section \<open>Control plane calls and task chains\<close>

subsection \<open>Responses and the remote side\<close>

text \<open>
  A value of Go's \<^verbatim>\<open>any\<close> as \<^verbatim>\<open>encoding/json\<close> produces it, and a \<^verbatim>\<open>map[string]any\<close> as
  a map; the nil map is the empty map (reading a key of either finds nothing).
\<close>

datatype any =
    ANil
  | ABool bool
  | ANumber real
  | AString string
  | AList "any list"
  | AMap "string \<Rightarrow> any option"

record ControlPlaneResponse =
  cp_Success :: bool
  cp_Data :: "string \<rightharpoonup> any"
  cp_Error :: string
  cp_RequestID :: string
  cp_TimingMs :: int

record Shell2HttpResponse =
  sh_Success :: bool
  sh_ExitCode :: int
  sh_Output :: string
  sh_Error :: string
  sh_DurationMs :: int
  sh_Timeout :: bool
  sh_TimingMs :: int

text \<open>
  Outside the repository: the cloud SDK and the JSON codec. A conversion through JSON
  fails in \<^verbatim>\<open>json.Marshal\<close>, fails in \<^verbatim>\<open>json.Unmarshal\<close>, or gives the converted value. An
  SDK call gives an error (its message, and the name of its type) or a response, which
  may be nil; a response may carry a request identifier.
\<close>

datatype 'x json_result = MarshalError string | UnmarshalError string | Decoded 'x

record 'r sdk_response =
  RequestId :: "string option"
  Payload :: 'r

datatype 'r sdk_result = SdkError string string | SdkOK "'r sdk_response option"

text \<open>
  The SDK client of an AGS instance. The number passed first to each call is the number
  of remote calls made before it, so that two calls with the same request may be
  answered differently.
\<close>

record ('q, 'r) Client =
  sdkStartSandboxInstance :: "nat \<Rightarrow> 'q \<Rightarrow> 'r sdk_result"
  sdkStopSandboxInstance :: "nat \<Rightarrow> 'q \<Rightarrow> 'r sdk_result"

record ('q, 'r) AGS =
  client :: "('q, 'r) Client option"

record StressConfig =
  CPUWorkers :: int
  CPULoad :: int
  VMWorkers :: int
  VMBytes :: string
  IOWorkers :: int
  Timeout :: int
  Jitter :: int

text \<open>
  The rest of the environment: the JSON conversions of the parameters into an SDK
  request, of an SDK response into a map and of a configuration map onto a stress
  configuration, and \<^verbatim>\<open>ExecShell2Http\<close>, the HTTP call that runs a command in the sandbox
  (its first argument again counts the remote calls made before).
\<close>

record ('q, 'r) env =
  params_to_request :: "(string \<rightharpoonup> any) \<Rightarrow> 'q json_result"
  response_to_map :: "'r sdk_response option \<Rightarrow> (string \<rightharpoonup> any) json_result"
  config_onto :: "(string \<rightharpoonup> any) \<Rightarrow> StressConfig \<Rightarrow> StressConfig json_result"
  ExecShell2Http :: "nat \<Rightarrow> string \<Rightarrow> string \<Rightarrow> string \<Rightarrow> int \<Rightarrow> Shell2HttpResponse"

subsection \<open>The two global executors\<close>

text \<open>
  The task functions submitted to the executors are closures; each is represented by
  what it captures. A stop task captures the instance identifier. A stress task either
  returns a response it already holds, or runs the rounds of a chain for an instance,
  a port and a list of configurations.
\<close>

datatype stop_task = StopTask string

datatype stress_task =
    ResultTask Shell2HttpResponse
  | ChainTask string string "StressConfig list"

datatype 'q remote_call =
    StartCall 'q
  | StopCall 'q
  | ExecCall string string string int

text \<open>
  The state shared by all callers: the two executors, and the remote calls made so far,
  oldest first. A result of the stress executor is a pointer that may be nil.
\<close>

record 'q world =
  asyncStopExecutor :: "(ControlPlaneResponse, stop_task) AsyncTaskExecutor"
  asyncStressExecutor :: "(Shell2HttpResponse option, stress_task) AsyncTaskExecutor"
  remote_calls :: "'q remote_call list"

definition new_world :: "'q world" where
  "new_world =
     \<lparr>asyncStopExecutor = NewAsyncTaskExecutor ''async-stop'' 100000,
      asyncStressExecutor = NewAsyncTaskExecutor ''async-stress'' 100000,
      remote_calls = []\<rparr>"

subsection \<open>Starting and stopping a sandbox instance\<close>

definition empty_response :: ControlPlaneResponse where
  "empty_response =
     \<lparr>cp_Success = False, cp_Data = Map.empty, cp_Error = [], cp_RequestID = [], cp_TimingMs = 0\<rparr>"

text \<open>
  \<^verbatim>\<open>StartSandboxInstance\<close>; \<open>timing\<close> is the elapsed time that the path taken reads from
  the clock.
\<close>

definition StartSandboxInstance ::
  "('q, 'r) env \<Rightarrow> ('q, 'r) AGS \<Rightarrow> (string \<rightharpoonup> any) \<Rightarrow> int \<Rightarrow> 'q world
     \<Rightarrow> ControlPlaneResponse \<times> 'q world" where
  "StartSandboxInstance env m params timing w =
     (let resp = empty_response in
      case client m of
        None \<Rightarrow> (resp\<lparr>cp_Error := ''client not initialized'', cp_TimingMs := timing\<rparr>, w)
      | Some cl \<Rightarrow>
          (case params_to_request env params of
             MarshalError e \<Rightarrow>
               (resp\<lparr>cp_Error := ''failed to marshal params: '' @ e, cp_TimingMs := timing\<rparr>, w)
           | UnmarshalError e \<Rightarrow>
               (resp\<lparr>cp_Error := ''failed to unmarshal to request: '' @ e, cp_TimingMs := timing\<rparr>, w)
           | Decoded request \<Rightarrow>
               let sdkResp = sdkStartSandboxInstance cl (length (remote_calls w)) request;
                   w1 = w\<lparr>remote_calls := remote_calls w @ [StartCall request]\<rparr>;
                   resp1 = resp\<lparr>cp_TimingMs := timing\<rparr>
               in case sdkResp of
                    SdkError msg tyname \<Rightarrow>
                      (resp1\<lparr>cp_Error := (if msg = [] then ''unknown error: '' @ tyname else msg)\<rparr>, w1)
                  | SdkOK None \<Rightarrow> (resp1\<lparr>cp_Error := ''empty response from API''\<rparr>, w1)
                  | SdkOK (Some r) \<Rightarrow>
                      let resp2 = (case RequestId r of
                                     None \<Rightarrow> resp1
                                   | Some rid \<Rightarrow> resp1\<lparr>cp_RequestID := rid\<rparr>)
                      in case response_to_map env (Some r) of
                           MarshalError e \<Rightarrow>
                             (resp2\<lparr>cp_Error := ''failed to marshal response: '' @ e\<rparr>, w1)
                         | UnmarshalError e \<Rightarrow>
                             (resp2\<lparr>cp_Error := ''failed to unmarshal response to map: '' @ e\<rparr>, w1)
                         | Decoded dataMap \<Rightarrow>
                             (resp2\<lparr>cp_Success := True, cp_Data := dataMap\<rparr>, w1)))"


text \<open>
  \<^verbatim>\<open>StartSandboxInstanceWithAsyncStop\<close>. The random number \<open>rnd\<close> and the pool's answer
  \<open>poolErr\<close> are those of the call of Submit, if it is reached.
\<close>

definition StartSandboxInstanceWithAsyncStop ::
  "('q, 'r) env \<Rightarrow> ('q, 'r) AGS \<Rightarrow> (string \<rightharpoonup> any) \<Rightarrow> int \<Rightarrow> int \<Rightarrow> real \<Rightarrow> string option
     \<Rightarrow> 'q world \<Rightarrow> ControlPlaneResponse \<times> 'q world" where
  "StartSandboxInstanceWithAsyncStop env m params delaySeconds timing rnd poolErr w =
     (if delaySeconds \<le> 0
      then (empty_response\<lparr>cp_Success := False, cp_Error := ''delaySeconds must be greater than 0''\<rparr>, w)
      else
        case StartSandboxInstance env m params timing w of
          (resp, w1) \<Rightarrow>
            if \<not> cp_Success resp then (resp, w1)
            else
              (case cp_Data resp ''Instance'' of
                 Some (AMap instance) \<Rightarrow>
                   (case instance ''InstanceId'' of
                      Some (AString instanceId) \<Rightarrow>
                        if instanceId = [] then (resp, w1)
                        else
                          (case Submit instanceId delaySeconds (StopTask instanceId) rnd poolErr
                                  (asyncStopExecutor w1) of
                             (err, ex) \<Rightarrow>
                               ((case err of
                                   None \<Rightarrow> resp
                                 | Some e \<Rightarrow>
                                     resp\<lparr>cp_Success := False,
                                          cp_Error := ''failed to submit stop task: '' @ e\<rparr>),
                                w1\<lparr>asyncStopExecutor := ex\<rparr>))
                    | _ \<Rightarrow> (resp, w1))
               | _ \<Rightarrow> (resp, w1)))"

text \<open>
  The instance identifier of a response, for the statements below: the non-empty
  string at \<^verbatim>\<open>Data.Instance.InstanceId\<close>, if there is one.
\<close>

definition instance_id_of :: "ControlPlaneResponse \<Rightarrow> string option" where
  "instance_id_of resp =
     (case cp_Data resp ''Instance'' of
        Some (AMap instance) \<Rightarrow>
          (case instance ''InstanceId'' of
             Some (AString s) \<Rightarrow> if s = [] then None else Some s
           | _ \<Rightarrow> None)
      | _ \<Rightarrow> None)"

subsection \<open>Stress configurations\<close>




text \<open>The decimal digits of a number, as the verb \<^verbatim>\<open>%d\<close> prints them.\<close>

fun digits :: "nat \<Rightarrow> string" where
  "digits n =
     (if n < 10 then [''0123456789'' ! n]
      else digits (n div 10) @ [''0123456789'' ! (n mod 10)])"

declare digits.simps [simp del]

definition itoa :: "int \<Rightarrow> string" where
  "itoa i = (if i < 0 then ''-'' @ digits (nat (- i)) else digits (nat i))"

fun join :: "string list \<Rightarrow> string \<Rightarrow> string" where
  "join [] sep = []"
| "join [s] sep = s"
| "join (s # t # ts) sep = s @ sep @ join (t # ts) sep"

definition buildStressNGCommand :: "StressConfig \<Rightarrow> string" where
  "buildStressNGCommand cfg =
     (let args = [''stress-ng''];
          args = (if CPUWorkers cfg > 0
                  then (args @ [''--cpu '' @ itoa (CPUWorkers cfg)])
                       @ (if CPULoad cfg > 0 \<and> CPULoad cfg \<le> 100
                          then [''--cpu-load '' @ itoa (CPULoad cfg)] else [])
                  else args);
          args = (if VMWorkers cfg > 0
                  then (args @ [''--vm '' @ itoa (VMWorkers cfg)])
                       @ (if VMBytes cfg \<noteq> [] then [''--vm-bytes '' @ VMBytes cfg] else [])
                  else args);
          args = (if IOWorkers cfg > 0 then args @ [''--io '' @ itoa (IOWorkers cfg)] else args);
          args = (if Timeout cfg > 0
                  then args @ [''--timeout '' @ itoa (Timeout cfg) @ ''s''] else args);
          args = args @ [''--metrics-brief'']
      in join args '' '')"


subsection \<open>Multi-round stress chains\<close>





text \<open>The responses of the rounds of a chain that starts after \<open>k\<close> remote calls.\<close>

fun round_responses ::
  "('q, 'r) env \<Rightarrow> string \<Rightarrow> string \<Rightarrow> nat \<Rightarrow> StressConfig list \<Rightarrow> Shell2HttpResponse list" where
  "round_responses env instanceID port k [] = []"
| "round_responses env instanceID port k (cfg # cfgs) =
     ExecShell2Http env k instanceID port (buildStressNGCommand cfg) (Timeout cfg + 10)
       # round_responses env instanceID port (Suc k) cfgs"

subsection \<open>Workers of the two executors\<close>












subsection \<open>A concrete environment\<close>

text \<open>
  An environment for examples: every start returns the instance \<open>ins-1\<close>, every
  conversion succeeds, and the command of the call numbered \<open>k\<close> exits with code \<open>k\<close>.
\<close>

definition demo_env :: "(string, unit) env" where
  "demo_env =
     \<lparr>params_to_request = (\<lambda>p. Decoded ''request''),
      response_to_map =
        (\<lambda>r. Decoded [''Instance'' \<mapsto> AMap [''InstanceId'' \<mapsto> AString ''ins-1'']]),
      config_onto = (\<lambda>c d. Decoded d),
      ExecShell2Http =
        (\<lambda>k instanceID port command timeout.
           \<lparr>sh_Success = True, sh_ExitCode = int k, sh_Output = [], sh_Error = [],
            sh_DurationMs = 0, sh_Timeout = False, sh_TimingMs = 0\<rparr>)\<rparr>"

definition demo_ags :: "(string, unit) AGS" where
  "demo_ags =
     \<lparr>client = Some
        \<lparr>sdkStartSandboxInstance = (\<lambda>k q. SdkOK (Some \<lparr>RequestId = Some ''req-1'', Payload = ()\<rparr>)),
         sdkStopSandboxInstance = (\<lambda>k q. SdkOK (Some \<lparr>RequestId = Some ''req-2'', Payload = ()\<rparr>))\<rparr>\<rparr>"

section \<open>Properties of the jitter calculator\<close>








section \<open>Properties of the executor\<close>

lemma GetResults_fst: "fst (GetResults e) = results e"
  by (simp add: GetResults_def)

lemma GetResults_snd: "snd (GetResults e) = e\<lparr>results := []\<rparr>"
  by (simp add: GetResults_def)

lemma step_conserves:
  assumes "step ev (ob, e) = Some (ob', e')"
    and "concat (drains ob) @ results e = init @ appended ob"
  shows "concat (drains ob') @ results e' = init @ appended ob'"
proof (cases ev)
  case (ESubmit taskID d f rnd poolErr)
  then show ?thesis using assms
    by (auto simp: Submit_def Let_def split: option.splits)
next
  case (EAppend i res err st en)
  then show ?thesis using assms
    by (auto simp: worker_append_def Let_def split: if_splits)
next
  case EDone
  then show ?thesis using assms
    by (auto simp: worker_done_def split: if_splits)
next
  case EGetResults
  then show ?thesis using assms
    by (auto simp: GetResults_def split: if_splits)
qed

lemma run_conserves:
  "run evs (ob, e) = Some (ob', e') \<Longrightarrow>
   concat (drains ob) @ results e = init @ appended ob \<Longrightarrow>
   concat (drains ob') @ results e' = init @ appended ob'"
proof (induction evs arbitrary: ob e)
  case Nil
  then show ?case by simp
next
  case (Cons ev evs)
  from Cons.prems(1) obtain ob1 e1 where s1: "step ev (ob, e) = Some (ob1, e1)"
    and r1: "run evs (ob1, e1) = Some (ob', e')"
    by (auto split: option.splits)
  from step_conserves [OF s1 Cons.prems(2)] Cons.IH [OF r1] show ?case by simp
qed

lemma step_counts:
  assumes "step ev (ob, e) = Some (ob', e')"
  shows "pendingCount e' =
           pendingCount e + (if is_submit ev then 1 else 0) - (if is_done ev then 1 else 0)"
    and "int (length (pool e')) =
           int (length (pool e)) + (if is_submit ev \<and> \<not> is_rejected ev then 1 else 0)
             - (if is_append ev then 1 else 0)"
    and "int (finishing e') =
           int (finishing e) + (if is_append ev then 1 else 0) - (if is_done ev then 1 else 0)"
    and "length (appended ob') = length (appended ob) + (if is_append ev then 1 else 0)"
  using assms
  by (cases ev; auto simp: Submit_def worker_append_def worker_done_def GetResults_def Let_def
        split: option.splits if_splits)+

lemma run_counts:
  "run evs (ob, e) = Some (ob', e') \<Longrightarrow>
   pendingCount e' =
     pendingCount e + int (count_events is_submit evs) - int (count_events is_done evs)
   \<and> int (length (pool e')) =
       int (length (pool e)) + int (count_events is_submit evs)
         - int (count_events is_rejected evs) - int (count_events is_append evs)
   \<and> int (finishing e') =
       int (finishing e) + int (count_events is_append evs) - int (count_events is_done evs)
   \<and> length (appended ob') = length (appended ob) + count_events is_append evs"
proof (induction evs arbitrary: ob e)
  case Nil
  then show ?case by (simp add: count_events_def)
next
  case (Cons ev evs)
  from Cons.prems(1) obtain ob1 e1 where s1: "step ev (ob, e) = Some (ob1, e1)"
    and r1: "run evs (ob1, e1) = Some (ob', e')"
    by (auto split: option.splits)
  have rej: "is_rejected ev \<Longrightarrow> is_submit ev"
    by (cases ev) (auto elim: is_rejected.elims)
  show ?case
    using step_counts [OF s1] Cons.IH [OF r1] rej
    by (auto simp: count_events_def)
qed

text \<open>
  Claim C1: GetResults returns the whole buffer and leaves an empty one, changing
  nothing else; a second call right after the first returns the empty list; and over
  every interleaving of submissions, completions and calls of GetResults, the lists
  returned by the calls, concatenated in order and followed by what is still buffered,
  are exactly the initial buffer followed by the results that workers appended: every
  buffered task result is handed out by exactly one call, none twice and none lost.
\<close>

theorem GetResults_drains_exactly_once:
  "fst (GetResults e) = results e
   \<and> snd (GetResults e) = e\<lparr>results := []\<rparr>
   \<and> fst (GetResults (snd (GetResults e))) = []
   \<and> (run evs (no_observations, e) = Some (ob, e') \<longrightarrow>
        concat (drains ob) @ results e' = results e @ appended ob)"
proof (intro conjI impI)
  show "fst (GetResults e) = results e" by (rule GetResults_fst)
  show "snd (GetResults e) = e\<lparr>results := []\<rparr>" by (rule GetResults_snd)
  show "fst (GetResults (snd (GetResults e))) = []"
    by (simp add: GetResults_fst GetResults_snd)
next
  assume r: "run evs (no_observations, e) = Some (ob, e')"
  have "concat (drains no_observations) @ results e = results e @ appended no_observations"
    by (simp add: no_observations_def)
  from run_conserves [OF r this]
  show "concat (drains ob) @ results e' = results e @ appended ob" .
qed

theorem GetResults_drains_exactly_once_witness:
  "(let e0 = NewAsyncTaskExecutor ''stop'' 0 :: (nat, unit) AsyncTaskExecutor;
        evs = [ESubmit ''a'' 0 () 0 None, ESubmit ''b'' 0 () 0 None,
               EAppend 1 7 None 10 12, EGetResults, EDone, EGetResults,
               EAppend 0 8 (Some ''boom'') 13 15, EGetResults];
        r = run evs (no_observations, e0)
    in r \<noteq> None
       \<and> concat (drains (fst (the r))) @ results (snd (the r)) = results e0 @ appended (fst (the r))
       \<and> map (map TaskID) (drains (fst (the r))) = [[''b''], [], [''a'']]
       \<and> fst (GetResults (snd (GetResults (snd (the r))))) = [])"
  using GetResults_drains_exactly_once
    [of "NewAsyncTaskExecutor ''stop'' 0 :: (nat, unit) AsyncTaskExecutor"
        "[ESubmit ''a'' 0 () 0 None, ESubmit ''b'' 0 () 0 None,
          EAppend 1 7 None 10 12, EGetResults, EDone, EGetResults,
          EAppend 0 8 (Some ''boom'') 13 15, EGetResults]"]
  by (simp add: NewAsyncTaskExecutor_def no_observations_def Submit_def worker_append_def
      worker_done_def GetResults_def Let_def)

text \<open>
  Claim C3: a call of Submit adds exactly one to the pending counter, whether or not the
  pool accepts the closure; a worker's append leaves the counter unchanged and the
  worker's last step subtracts exactly one. In every state reached from a new
  executor by any interleaving of the atomic steps, the counter is not negative, it is
  at most the number of calls of Submit, it is the number of calls of Submit minus the
  number of closures that have finished, no more closures have decremented than have
  appended a result, and it is the number of closures queued or running plus those
  between append and decrement plus the submissions the pool rejected. So it is zero
  once every submitted task has appended its result and finished.
\<close>

theorem pendingCount_invariant:
  "GetPendingCount (snd (Submit taskID delaySeconds taskFunc rnd poolErr e0)) = GetPendingCount e0 + 1
   \<and> (worker_append i res err startedAt endedAt e0 = Some (r, e1) \<longrightarrow>
        GetPendingCount e1 = GetPendingCount e0 \<and> results e1 = results e0 @ [r])
   \<and> (worker_done e0 = Some e2 \<longrightarrow>
        GetPendingCount e2 = GetPendingCount e0 - 1 \<and> results e2 = results e0)
   \<and> (run evs (no_observations, NewAsyncTaskExecutor nm sz) = Some (ob, e) \<longrightarrow>
        0 \<le> GetPendingCount e
        \<and> GetPendingCount e \<le> int (count_events is_submit evs)
        \<and> GetPendingCount e = int (count_events is_submit evs) - int (count_events is_done evs)
        \<and> count_events is_done evs \<le> count_events is_append evs
        \<and> count_events is_append evs = length (appended ob)
        \<and> GetPendingCount e =
            int (length (pool e)) + int (finishing e) + int (count_events is_rejected evs)
        \<and> (count_events is_done evs = count_events is_submit evs \<longrightarrow> GetPendingCount e = 0))"
proof (intro conjI impI)
  show "GetPendingCount (snd (Submit taskID delaySeconds taskFunc rnd poolErr e0)) = GetPendingCount e0 + 1"
    by (simp add: GetPendingCount_def Submit_def Let_def split: option.splits)
next
  assume "worker_append i res err startedAt endedAt e0 = Some (r, e1)"
  then show "GetPendingCount e1 = GetPendingCount e0" and "results e1 = results e0 @ [r]"
    by (auto simp: GetPendingCount_def worker_append_def Let_def split: if_splits)
next
  assume "worker_done e0 = Some e2"
  then show "GetPendingCount e2 = GetPendingCount e0 - 1" and "results e2 = results e0"
    by (auto simp: GetPendingCount_def worker_done_def split: if_splits)
next
  assume r: "run evs (no_observations, NewAsyncTaskExecutor nm sz) = Some (ob, e)"
  let ?S = "int (count_events is_submit evs)"
  let ?R = "int (count_events is_rejected evs)"
  let ?A = "int (count_events is_append evs)"
  let ?D = "int (count_events is_done evs)"
  from run_counts [OF r]
  have p: "pendingCount e = ?S - ?D"
    and q: "int (length (pool e)) = ?S - ?R - ?A"
    and f: "int (finishing e) = ?A - ?D"
    and a: "length (appended ob) = count_events is_append evs"
    by (simp_all add: NewAsyncTaskExecutor_def no_observations_def)
  have q0: "0 \<le> int (length (pool e))" and f0: "0 \<le> int (finishing e)" by simp_all
  show "0 \<le> GetPendingCount e"
    unfolding GetPendingCount_def using p q f q0 f0 by linarith
  show "GetPendingCount e \<le> ?S"
    unfolding GetPendingCount_def using p by linarith
  show "GetPendingCount e = ?S - ?D"
    unfolding GetPendingCount_def by (rule p)
  show "count_events is_done evs \<le> count_events is_append evs"
    using f f0 by linarith
  show "count_events is_append evs = length (appended ob)"
    using a by simp
  show "GetPendingCount e = int (length (pool e)) + int (finishing e) + ?R"
    unfolding GetPendingCount_def using p q f by linarith
  show "GetPendingCount e = 0" if "count_events is_done evs = count_events is_submit evs"
    unfolding GetPendingCount_def using p that by simp
qed

theorem pendingCount_invariant_witness:
  "(let e0 = NewAsyncTaskExecutor ''stop'' 0 :: (nat, unit) AsyncTaskExecutor;
        evs = [ESubmit ''a'' 0 () 0 None, ESubmit ''b'' 5 () (1 / 2) None,
               EAppend 1 7 None 10 12, EGetResults, EDone,
               EAppend 0 8 (Some ''boom'') 13 15, EDone];
        r = run evs (no_observations, e0)
    in r \<noteq> None
       \<and> GetPendingCount (snd (the r)) = 0
       \<and> count_events is_submit evs = 2
       \<and> count_events is_done evs = 2
       \<and> worker_done (snd (the r)) = None
       \<and> GetPendingCount (snd (the (run (take 3 evs) (no_observations, e0)))) = 2
       \<and> GetPendingCount (snd (the (run (take 5 evs) (no_observations, e0)))) = 1)"
  using pendingCount_invariant
    [where evs = "[ESubmit ''a'' 0 () 0 None, ESubmit ''b'' 5 () (1 / 2) None,
          EAppend 1 7 None 10 12, EGetResults, EDone,
          EAppend 0 8 (Some ''boom'') 13 15, EDone] :: (nat, unit) event list"
       and nm = "''stop''" and sz = 0]
  by (simp add: NewAsyncTaskExecutor_def no_observations_def Submit_def worker_append_def
      worker_done_def GetResults_def GetPendingCount_def Let_def count_events_def actualDelay_def)

section \<open>Properties of the token cache\<close>

lemma getToken_hit:
  "cache_fresh now1 (cache tm i) \<Longrightarrow>
   getToken p a now1 now2 now3 i tm = (Inr (token (the (cache tm i))), False, tm)"
  by (simp add: getToken_def getToken_read_def)

lemma cache_fresh_mono: "now1 \<le> now2 \<Longrightarrow> cache_fresh now2 c \<Longrightarrow> cache_fresh now1 c"
  by (auto simp: cache_fresh_def split: option.splits)

lemma getToken_miss:
  "\<not> cache_fresh now1 (cache tm i) \<Longrightarrow> \<not> cache_fresh now2 (cache tm i) \<Longrightarrow>
   getToken p a now1 now2 now3 i tm =
     (case a i of
        AcquireError err \<Rightarrow> (Inl (''failed to acquire token: '' @ err), True, tm)
      | AcquireOK None \<Rightarrow> (Inl ''empty token response'', True, tm)
      | AcquireOK (Some response) \<Rightarrow>
          (case Token response of
             None \<Rightarrow> (Inl ''empty token response'', True, tm)
           | Some tok \<Rightarrow>
               (Inr tok, True,
                tm\<lparr>cache := (cache tm)(i \<mapsto>
                     \<lparr>token = tok,
                      expiresAt =
                        (case ExpiresAt response of
                           None \<Rightarrow> now3 + 5 * minute
                         | Some s \<Rightarrow> (case p s of Some t \<Rightarrow> t | None \<Rightarrow> now3 + 5 * minute))\<rparr>)\<rparr>)))"
  by (simp add: getToken_def getToken_read_def getToken_locked_def Let_def
      split: acquire_result.splits option.splits)

text \<open>
  Claim C5: getToken makes no remote call exactly when one of its two checks finds a
  cached entry whose expiry is more than 30 seconds after the clock reading of that
  check. When the clock does not go backwards between the two checks and no other
  caller intervenes, that is exactly when the entry is fresh at the first check, and
  then the cached token is returned and nothing changes. Otherwise the remote call is
  made: an error or a reply without a token gives an error and leaves the cache as it
  was; a reply with a token is returned and cached with the parsed expiry of the reply,
  or with the clock plus five minutes when the reply has no expiry or it does not parse.
\<close>

theorem getToken_cached_or_acquired:
  "(fst (snd (getToken p a now1 now2 now3 i tm)) = False \<longleftrightarrow>
      cache_fresh now1 (cache tm i) \<or> cache_fresh now2 (cache tm i))
   \<and> (now1 \<le> now2 \<longrightarrow>
       (fst (snd (getToken p a now1 now2 now3 i tm)) = False \<longleftrightarrow> cache_fresh now1 (cache tm i))
       \<and> (cache_fresh now1 (cache tm i) \<longrightarrow>
            getToken p a now1 now2 now3 i tm = (Inr (token (the (cache tm i))), False, tm))
       \<and> (\<not> cache_fresh now1 (cache tm i) \<longrightarrow>
            getToken p a now1 now2 now3 i tm =
              (case a i of
                 AcquireError err \<Rightarrow> (Inl (''failed to acquire token: '' @ err), True, tm)
               | AcquireOK None \<Rightarrow> (Inl ''empty token response'', True, tm)
               | AcquireOK (Some response) \<Rightarrow>
                   (case Token response of
                      None \<Rightarrow> (Inl ''empty token response'', True, tm)
                    | Some tok \<Rightarrow>
                        (Inr tok, True,
                         tm\<lparr>cache := (cache tm)(i \<mapsto>
                              \<lparr>token = tok,
                               expiresAt =
                                 (case ExpiresAt response of
                                    None \<Rightarrow> now3 + 5 * minute
                                  | Some s \<Rightarrow> (case p s of Some t \<Rightarrow> t | None \<Rightarrow> now3 + 5 * minute))\<rparr>)\<rparr>)))))"
proof -
  have A: "fst (snd (getToken p a now1 now2 now3 i tm)) = False \<longleftrightarrow>
      cache_fresh now1 (cache tm i) \<or> cache_fresh now2 (cache tm i)"
    by (auto simp: getToken_def getToken_read_def getToken_locked_def Let_def
        split: acquire_result.splits option.splits)
  show ?thesis
  proof (intro conjI impI)
    show "fst (snd (getToken p a now1 now2 now3 i tm)) = False \<longleftrightarrow>
      cache_fresh now1 (cache tm i) \<or> cache_fresh now2 (cache tm i)" by (rule A)
  next
    assume "now1 \<le> now2"
    then show "fst (snd (getToken p a now1 now2 now3 i tm)) = False \<longleftrightarrow> cache_fresh now1 (cache tm i)"
      using A cache_fresh_mono by blast
  next
    assume "cache_fresh now1 (cache tm i)"
    then show "getToken p a now1 now2 now3 i tm = (Inr (token (the (cache tm i))), False, tm)"
      by (rule getToken_hit)
  next
    assume le: "now1 \<le> now2" and nf: "\<not> cache_fresh now1 (cache tm i)"
    then have "\<not> cache_fresh now2 (cache tm i)" using cache_fresh_mono by blast
    show "getToken p a now1 now2 now3 i tm =
              (case a i of
                 AcquireError err \<Rightarrow> (Inl (''failed to acquire token: '' @ err), True, tm)
               | AcquireOK None \<Rightarrow> (Inl ''empty token response'', True, tm)
               | AcquireOK (Some response) \<Rightarrow>
                   (case Token response of
                      None \<Rightarrow> (Inl ''empty token response'', True, tm)
                    | Some tok \<Rightarrow>
                        (Inr tok, True,
                         tm\<lparr>cache := (cache tm)(i \<mapsto>
                              \<lparr>token = tok,
                               expiresAt =
                                 (case ExpiresAt response of
                                    None \<Rightarrow> now3 + 5 * minute
                                  | Some s \<Rightarrow> (case p s of Some t \<Rightarrow> t | None \<Rightarrow> now3 + 5 * minute))\<rparr>)\<rparr>)))"
      by (rule getToken_miss [OF nf \<open>\<not> cache_fresh now2 (cache tm i)\<close>])
  qed
qed


theorem getToken_cached_or_acquired_witness:
  "(let p = (\<lambda>s. if s = ''2026-01-01T00:10:00Z'' then Some (600 * second) else None);
        a = (\<lambda>i. AcquireOK (Some \<lparr>Token = Some ''tok'', ExpiresAt = Some ''2026-01-01T00:10:00Z''\<rparr>));
        b = (\<lambda>i. AcquireOK (Some \<lparr>Token = Some ''tok2'', ExpiresAt = Some ''never''\<rparr>));
        r1 = getToken p a 0 0 0 ''inst'' \<lparr>cache = Map.empty\<rparr>;
        r2 = getToken p b second second second ''inst'' (snd (snd r1));
        r3 = getToken p b (580 * second) (580 * second) (581 * second) ''inst'' (snd (snd r2));
        r4 = getToken p (\<lambda>i. AcquireError ''timeout'') (900 * second) (900 * second) (900 * second)
               ''inst'' (snd (snd r3))
    in fst r1 = Inr ''tok'' \<and> fst (snd r1)
       \<and> cache (snd (snd r1)) ''inst'' = Some \<lparr>token = ''tok'', expiresAt = 600 * second\<rparr>
       \<and> fst r2 = Inr ''tok'' \<and> \<not> fst (snd r2)
       \<and> cache (snd (snd r2)) ''inst'' = Some \<lparr>token = ''tok'', expiresAt = 600 * second\<rparr>
       \<and> fst r3 = Inr ''tok2'' \<and> fst (snd r3)
       \<and> cache (snd (snd r3)) ''inst'' = Some \<lparr>token = ''tok2'', expiresAt = 881 * second\<rparr>
       \<and> fst r4 = Inl ''failed to acquire token: timeout'' \<and> fst (snd r4)
       \<and> cache (snd (snd r4)) ''inst'' = Some \<lparr>token = ''tok2'', expiresAt = 881 * second\<rparr>)"
  using getToken_cached_or_acquired
    [where p = "\<lambda>s. if s = ''2026-01-01T00:10:00Z'' then Some (600 * second) else None"
       and a = "\<lambda>i. AcquireOK (Some \<lparr>Token = Some ''tok'', ExpiresAt = Some ''2026-01-01T00:10:00Z''\<rparr>)"
       and ?now1.0 = 0 and ?now2.0 = 0 and ?now3.0 = 0 and i = "''inst''"
       and tm = "\<lparr>cache = Map.empty\<rparr>"]
  by (simp add: getToken_def getToken_read_def getToken_locked_def cache_fresh_def second_def
      minute_def Let_def)

lemma step_fresh_D:
  "step_fresh p response sched \<Longrightarrow> (c, now, now') \<in> set sched \<Longrightarrow> st \<in> set sched \<Longrightarrow>
   now + 30 * second < reply_expiry p response (snd (snd st))"
  by (cases st) (auto simp: step_fresh_def list_all_iff)

lemma token_step_inv:
  assumes st: "token_step p a i (c, now, now') sys = Some sys'"
    and mem: "(c, now, now') \<in> set sched"
    and reply: "a 0 i = AcquireOK (Some response)" "Token response = Some tok"
    and fresh: "step_fresh p response sched"
    and inv: "token_inv p response tok i sched sys"
  shows "token_inv p response tok i sched sys'"
  using inv unfolding token_inv_def
proof (elim disjE conjE bexE)
  assume z: "remoteCalls sys = 0" and cold: "cache (manager sys) i = None"
    and nr: "\<forall>c r. callers sys c \<noteq> Returned r"
  show "(remoteCalls sys' = 0 \<and> cache (manager sys') i = None
         \<and> (\<forall>c r. callers sys' c \<noteq> Returned r))
      \<or> (remoteCalls sys' = 1
         \<and> (\<exists>st \<in> set sched. cache (manager sys') i =
               Some \<lparr>token = tok, expiresAt = reply_expiry p response (snd (snd st))\<rparr>)
         \<and> (\<forall>c r. callers sys' c = Returned r \<longrightarrow> r = Inr tok))"
  proof (cases "callers sys c")
    case NotStarted
    with st cold have "sys' = sys\<lparr>callers := (callers sys)(c := Missed)\<rparr>"
      by (auto simp: getToken_read_def cache_fresh_def)
    with z cold nr show ?thesis by (intro disjI1) auto
  next
    case Missed
    with st cold z reply have
      "sys' = sys\<lparr>manager := (manager sys)\<lparr>cache := (cache (manager sys))(i \<mapsto>
                 \<lparr>token = tok, expiresAt = reply_expiry p response now'\<rparr>)\<rparr>,
               callers := (callers sys)(c := Returned (Inr tok)),
               remoteCalls := 1\<rparr>"
      by (auto simp: getToken_locked_def cache_fresh_def reply_expiry_def Let_def)
    with nr mem show ?thesis
      by (intro disjI2) force
  next
    case (Returned r)
    with st show ?thesis by simp
  qed
next
  fix s
  assume o: "remoteCalls sys = 1" and sm: "s \<in> set sched"
    and c: "cache (manager sys) i = Some \<lparr>token = tok, expiresAt = reply_expiry p response (snd (snd s))\<rparr>"
    and r: "\<forall>c r. callers sys c = Returned r \<longrightarrow> r = Inr tok"
  have fr: "cache_fresh now (cache (manager sys) i)"
    using step_fresh_D [OF fresh mem sm] c by (simp add: cache_fresh_def)
  show "(remoteCalls sys' = 0 \<and> cache (manager sys') i = None
         \<and> (\<forall>c r. callers sys' c \<noteq> Returned r))
      \<or> (remoteCalls sys' = 1
         \<and> (\<exists>st \<in> set sched. cache (manager sys') i =
               Some \<lparr>token = tok, expiresAt = reply_expiry p response (snd (snd st))\<rparr>)
         \<and> (\<forall>c r. callers sys' c = Returned r \<longrightarrow> r = Inr tok))"
  proof (cases "callers sys c")
    case NotStarted
    with st fr c have "sys' = sys\<lparr>callers := (callers sys)(c := Returned (Inr tok))\<rparr>"
      by (auto simp: getToken_read_def)
    with o sm c r show ?thesis by (intro disjI2) auto
  next
    case Missed
    with st fr c have "sys' = sys\<lparr>manager := manager sys, callers := (callers sys)(c := Returned (Inr tok)),
        remoteCalls := remoteCalls sys\<rparr>"
      by (auto simp: getToken_locked_def)
    with o sm c r show ?thesis by (intro disjI2) auto
  next
    case (Returned r)
    with st show ?thesis by simp
  qed
qed

lemma token_run_inv:
  assumes reply: "a 0 i = AcquireOK (Some response)" "Token response = Some tok"
    and fresh: "step_fresh p response sched"
  shows "token_run p a i sts sys = Some sys' \<Longrightarrow> set sts \<subseteq> set sched \<Longrightarrow>
         token_inv p response tok i sched sys \<Longrightarrow> token_inv p response tok i sched sys'"
proof (induction sts arbitrary: sys)
  case Nil
  then show ?case by simp
next
  case (Cons st sts)
  obtain c now now' where st: "st = (c, now, now')" by (cases st) auto
  from Cons.prems(1) obtain sys1 where s1: "token_step p a i (c, now, now') sys = Some sys1"
    and r1: "token_run p a i sts sys1 = Some sys'"
    by (auto simp: st split: option.splits)
  have mem: "(c, now, now') \<in> set sched" using Cons.prems(2) st by auto
  have "token_inv p response tok i sched sys1"
    by (rule token_step_inv [OF s1 mem reply fresh Cons.prems(3)])
  with Cons.IH [OF r1] Cons.prems(2) show ?case by auto
qed

text \<open>
  Claim C8, as stated, fails: the caller that loses the race fetches again whenever its
  check under the exclusive lock does not find a fresh entry. Here the remote answers
  every call with a token that expires 10 seconds after the start; both callers miss on
  the cold cache, the first caches the token, and the check of the second, 2 seconds
  after the start, is not 30 seconds before the expiry: two remote calls are made.
\<close>

theorem getToken_single_flight_counterexample:
  "cache \<lparr>cache = Map.empty\<rparr> ''x'' = None
   \<and> token_run (\<lambda>s. Some (10 * second))
         (\<lambda>k i. AcquireOK (Some \<lparr>Token = Some ''tok'', ExpiresAt = Some ''soon''\<rparr>)) ''x''
         [(0, 0, 0), (1, 0, 0), (0, second, second), (1, 2 * second, 2 * second)]
         (token_start \<lparr>cache = Map.empty\<rparr>) \<noteq> None
   \<and> callers (the (token_run (\<lambda>s. Some (10 * second))
         (\<lambda>k i. AcquireOK (Some \<lparr>Token = Some ''tok'', ExpiresAt = Some ''soon''\<rparr>)) ''x''
         [(0, 0, 0), (1, 0, 0), (0, second, second), (1, 2 * second, 2 * second)]
         (token_start \<lparr>cache = Map.empty\<rparr>))) 0 = Returned (Inr ''tok'')
   \<and> callers (the (token_run (\<lambda>s. Some (10 * second))
         (\<lambda>k i. AcquireOK (Some \<lparr>Token = Some ''tok'', ExpiresAt = Some ''soon''\<rparr>)) ''x''
         [(0, 0, 0), (1, 0, 0), (0, second, second), (1, 2 * second, 2 * second)]
         (token_start \<lparr>cache = Map.empty\<rparr>))) 1 = Returned (Inr ''tok'')
   \<and> remoteCalls (the (token_run (\<lambda>s. Some (10 * second))
         (\<lambda>k i. AcquireOK (Some \<lparr>Token = Some ''tok'', ExpiresAt = Some ''soon''\<rparr>)) ''x''
         [(0, 0, 0), (1, 0, 0), (0, second, second), (1, 2 * second, 2 * second)]
         (token_start \<lparr>cache = Map.empty\<rparr>))) = 2"
  by (simp add: token_start_def getToken_read_def getToken_locked_def cache_fresh_def second_def
      minute_def Let_def)

text \<open>
  Claim C8, amended: when callers of getToken for the same resource run concurrently
  on a cold cache, the first remote call returns a token, and every check is made more
  than 30 seconds before the expiry cached from that reply, then exactly one remote
  call is made in every interleaving of the callers' critical sections: every caller
  that reaches the exclusive lock after the first finds the cached token there and
  returns it without fetching.
\<close>

theorem getToken_single_flight:
  assumes "cache tm0 i = None"
    and "token_run p a i sched (token_start tm0) = Some sys"
    and "a 0 i = AcquireOK (Some response)" and "Token response = Some tok"
    and "step_fresh p response sched"
    and "callers sys c1 = Returned r1" and "callers sys c2 = Returned r2"
  shows "remoteCalls sys = 1 \<and> r1 = Inr tok \<and> r2 = Inr tok"
proof -
  have "token_inv p response tok i sched (token_start tm0)"
    using assms(1) by (simp add: token_inv_def token_start_def)
  with token_run_inv [OF assms(3,4,5) assms(2)]
  have "token_inv p response tok i sched sys" by simp
  with assms(6,7) show ?thesis by (auto simp: token_inv_def)
qed


theorem getToken_single_flight_witness:
  "(let p = (\<lambda>s. None);
        a = (\<lambda>k i. AcquireOK (Some \<lparr>Token = Some ''tok'', ExpiresAt = None\<rparr>));
        r = token_run p a ''x''
              [(0, 0, 0), (1, 0, 0), (0, second, second), (1, 2 * second, 2 * second)]
              (token_start \<lparr>cache = Map.empty\<rparr>)
    in cache \<lparr>cache = Map.empty\<rparr> ''x'' = None
       \<and> r \<noteq> None
       \<and> step_fresh p \<lparr>Token = Some ''tok'', ExpiresAt = None\<rparr>
             [(0, 0, 0), (1, 0, 0), (0, second, second), (1, 2 * second, 2 * second)]
       \<and> callers (the r) 0 = Returned (Inr ''tok'') \<and> callers (the r) 1 = Returned (Inr ''tok'')
       \<and> remoteCalls (the r) = 1)"
proof -
  let ?p = "\<lambda>s::string. None :: int option"
  let ?resp = "\<lparr>Token = Some ''tok'', ExpiresAt = None\<rparr>"
  let ?a = "\<lambda>(k::nat) (i::string). AcquireOK (Some ?resp)"
  let ?sched = "[(0, 0, 0), (1, 0, 0), (0, second, second), (1, 2 * second, 2 * second)]
                  :: (nat \<times> int \<times> int) list"
  let ?tm = "\<lparr>cache = Map.empty\<rparr>"
  let ?r = "token_run ?p ?a ''x'' ?sched (token_start ?tm)"
  have cold: "cache ?tm ''x'' = None" by simp
  have run: "?r = Some (the ?r)"
    by (simp add: token_start_def getToken_read_def getToken_locked_def cache_fresh_def
        second_def minute_def Let_def)
  have fresh: "step_fresh ?p ?resp ?sched"
    by (simp add: step_fresh_def reply_expiry_def second_def minute_def)
  have c0: "callers (the ?r) 0 = Returned (Inr ''tok'')"
    and c1: "callers (the ?r) 1 = Returned (Inr ''tok'')"
    by (simp_all add: token_start_def getToken_read_def getToken_locked_def cache_fresh_def
        second_def minute_def Let_def)
  have "remoteCalls (the ?r) = 1 \<and> Inr ''tok'' = (Inr ''tok'' :: string + string)
        \<and> Inr ''tok'' = (Inr ''tok'' :: string + string)"
    by (rule getToken_single_flight [OF cold run _ _ fresh c0 c1]) simp_all
  then have calls: "remoteCalls (the ?r) = 1" by (rule conjunct1)
  have ne: "?r \<noteq> None" by (subst run) simp
  show ?thesis unfolding Let_def by (intro conjI cold ne fresh c0 c1 calls)
qed

section \<open>Properties of the retry rounds\<close>

lemma retry_tasks_eq:
  "retry_tasks m ts =
     (filter (\<lambda>t. retryCount t \<ge> m) ts,
      map (\<lambda>t. \<lparr>imageRef = imageRef t, retryCount = retryCount t + 1\<rparr>)
        (filter (\<lambda>t. retryCount t < m) ts))"
  by (induction ts) (auto simp: Let_def)

lemma wait_all_mset: "mset (wait_all sched n inflight q) \<subseteq># mset q + mset inflight"
proof (induction sched n inflight q rule: wait_all.induct)
  case (1 sched n inflight q)
  show ?case
  proof (cases "inflight = []")
    case True
    then show ?thesis by simp
  next
    case False
    let ?k = "fst (sched n) mod length inflight"
    let ?rest = "take ?k inflight @ drop (Suc ?k) inflight"
    let ?q' = "if snd (sched n)
               then addFailedTask (imageRef (inflight ! ?k)) (retryCount (inflight ! ?k)) q else q"
    have k: "?k < length inflight" using False by simp
    have ih: "mset (wait_all sched (Suc n) ?rest ?q') \<subseteq># mset ?q' + mset ?rest"
      using "1.IH" [OF False refl refl] .
    have split: "mset inflight = add_mset (inflight ! ?k) (mset ?rest)"
      using id_take_nth_drop [OF k] by (metis mset.simps(2) mset_append union_mset_add_mset_right)
    have q': "mset ?q' + mset ?rest \<subseteq># mset q + mset inflight"
      unfolding split by (simp add: addFailedTask_def)
    show ?thesis
      unfolding wait_all_unfold [OF False] using ih q' by (rule subset_mset.order_trans)
  qed
qed

lemma retry_rounds_Nil [simp]: "retry_rounds sched m n [] = ([], [])"
  by (subst retry_rounds.simps) simp

lemma retry_rounds_unfold:
  assumes "q \<noteq> []"
  shows "retry_rounds sched m n q =
     (\<lparr>drained = q, warned = fst (retry_tasks m q), submitted = snd (retry_tasks m q)\<rparr>
        # fst (retry_rounds sched m (Suc n) (wait_all (sched n) 0 (snd (retry_tasks m q)) [])),
      snd (retry_rounds sched m (Suc n) (wait_all (sched n) 0 (snd (retry_tasks m q)) [])))"
  using assms by (subst retry_rounds.simps) (simp add: Let_def split_def)

lemma retry_rounds_final: "snd (retry_rounds sched m n q) = []"
proof (induction "retry_weight m q" arbitrary: n q rule: less_induct)
  case less
  show ?case
  proof (cases "q = []")
    case True
    then show ?thesis by simp
  next
    case False
    let ?q' = "wait_all (sched n) 0 (snd (retry_tasks m q)) []"
    have "retry_weight m ?q' \<le> retry_weight m (snd (retry_tasks m q))"
      using wait_all_weight [of m "sched n" 0 "snd (retry_tasks m q)" "[]"] by simp
    also have "\<dots> < retry_weight m q" by (rule retry_tasks_weight [OF False])
    finally have "snd (retry_rounds sched m (Suc n) ?q') = []" by (rule less)
    then show ?thesis by (simp add: retry_rounds_unfold [OF False])
  qed
qed

lemma retry_rounds_empty_iff: "fst (retry_rounds sched m n q) = [] \<longleftrightarrow> q = []"
proof (cases "q = []")
  case True
  then show ?thesis by simp
next
  case False
  then show ?thesis by (simp add: retry_rounds_unfold [OF False])
qed

lemma retry_rounds_hd: "q \<noteq> [] \<Longrightarrow> drained (hd (fst (retry_rounds sched m n q))) = q"
  by (simp add: retry_rounds_unfold)

lemma retry_rounds_each:
  "r \<in> set (fst (retry_rounds sched m n q)) \<Longrightarrow>
   drained r \<noteq> []
   \<and> warned r = filter (\<lambda>t. retryCount t \<ge> m) (drained r)
   \<and> submitted r =
       map (\<lambda>t. \<lparr>imageRef = imageRef t, retryCount = retryCount t + 1\<rparr>)
         (filter (\<lambda>t. retryCount t < m) (drained r))"
proof (induction "retry_weight m q" arbitrary: n q rule: less_induct)
  case less
  show ?case
  proof (cases "q = []")
    case True
    with less.prems show ?thesis by simp
  next
    case False
    let ?q' = "wait_all (sched n) 0 (snd (retry_tasks m q)) []"
    have "retry_weight m ?q' \<le> retry_weight m (snd (retry_tasks m q))"
      using wait_all_weight [of m "sched n" 0 "snd (retry_tasks m q)" "[]"] by simp
    also have "\<dots> < retry_weight m q" by (rule retry_tasks_weight [OF False])
    finally have w: "retry_weight m ?q' < retry_weight m q" .
    from less.prems False
    consider "r = \<lparr>drained = q, warned = fst (retry_tasks m q), submitted = snd (retry_tasks m q)\<rparr>"
      | "r \<in> set (fst (retry_rounds sched m (Suc n) ?q'))"
      by (auto simp: retry_rounds_unfold [OF False])
    then show ?thesis
    proof cases
      case 1
      then show ?thesis using False by (simp add: retry_tasks_eq)
    next
      case 2
      then show ?thesis by (rule less.hyps [OF w])
    qed
  qed
qed

lemma retry_rounds_next:
  "Suc k < length (fst (retry_rounds sched m n q)) \<Longrightarrow>
   drained (fst (retry_rounds sched m n q) ! Suc k) =
     wait_all (sched (n + k)) 0 (submitted (fst (retry_rounds sched m n q) ! k)) []"
proof (induction k arbitrary: n q)
  case 0
  then have ne: "q \<noteq> []" by auto
  let ?q' = "wait_all (sched n) 0 (snd (retry_tasks m q)) []"
  from 0 have "?q' \<noteq> []"
    by (auto simp: retry_rounds_unfold [OF ne] retry_rounds_empty_iff [symmetric]
        simp del: retry_rounds_empty_iff)
  then show ?case
    by (simp add: retry_rounds_unfold [OF ne] retry_rounds_hd hd_conv_nth [symmetric]
        retry_rounds_empty_iff)
next
  case (Suc k)
  then have ne: "q \<noteq> []" by auto
  let ?q' = "wait_all (sched n) 0 (snd (retry_tasks m q)) []"
  from Suc.prems have "Suc k < length (fst (retry_rounds sched m (Suc n) ?q'))"
    by (simp add: retry_rounds_unfold [OF ne])
  from Suc.IH [OF this] show ?case
    by (simp add: retry_rounds_unfold [OF ne])
qed

text \<open>
  Claim C4: the retry loop of processRetries always terminates, and it leaves the loop
  with an empty queue; it runs no round exactly when the queue is empty at the start.
  Every round drains a queue that is not empty, in full: the first round the given
  queue, every later round exactly the queue that the failures of the round before
  built up, so only tasks resubmitted in the round before. In every round the
  drained tasks whose retry count has reached the maximum (the configured value, or 3
  when that is not positive) are logged and not submitted, and all the others are
  submitted, in order, with the retry count incremented by one.
\<close>

theorem processRetries_rounds:
  "(let maxRetries = (if cfgMaxRetries \<le> 0 then 3 else cfgMaxRetries);
        rounds = fst (processRetries sched cfgMaxRetries failedQueue)
    in snd (processRetries sched cfgMaxRetries failedQueue) = []
       \<and> (rounds = [] \<longleftrightarrow> failedQueue = [])
       \<and> (rounds \<noteq> [] \<longrightarrow> drained (hd rounds) = failedQueue)
       \<and> (\<forall>r \<in> set rounds.
            drained r \<noteq> []
            \<and> warned r = filter (\<lambda>t. retryCount t \<ge> maxRetries) (drained r)
            \<and> submitted r =
                map (\<lambda>t. \<lparr>imageRef = imageRef t, retryCount = retryCount t + 1\<rparr>)
                  (filter (\<lambda>t. retryCount t < maxRetries) (drained r)))
       \<and> (\<forall>k. Suc k < length rounds \<longrightarrow>
            drained (rounds ! Suc k) = wait_all (sched (Suc k)) 0 (submitted (rounds ! k)) []
            \<and> mset (drained (rounds ! Suc k)) \<subseteq># mset (submitted (rounds ! k))))"
proof -
  define m where "m = (if cfgMaxRetries \<le> 0 then 3 else cfgMaxRetries)"
  define rounds where "rounds = fst (retry_rounds sched m 1 failedQueue)"
  have pr: "processRetries sched cfgMaxRetries failedQueue = retry_rounds sched m 1 failedQueue"
    by (simp add: processRetries_def m_def)
  have a: "snd (retry_rounds sched m 1 failedQueue) = []" by (rule retry_rounds_final)
  have b: "rounds = [] \<longleftrightarrow> failedQueue = []"
    unfolding rounds_def by (rule retry_rounds_empty_iff)
  have c: "rounds \<noteq> [] \<longrightarrow> drained (hd rounds) = failedQueue"
    using b unfolding rounds_def by (auto simp: retry_rounds_hd)
  have d: "\<forall>r \<in> set rounds.
            drained r \<noteq> []
            \<and> warned r = filter (\<lambda>t. retryCount t \<ge> m) (drained r)
            \<and> submitted r =
                map (\<lambda>t. \<lparr>imageRef = imageRef t, retryCount = retryCount t + 1\<rparr>)
                  (filter (\<lambda>t. retryCount t < m) (drained r))"
    unfolding rounds_def using retry_rounds_each by blast
  have e: "\<forall>k. Suc k < length rounds \<longrightarrow>
            drained (rounds ! Suc k) = wait_all (sched (Suc k)) 0 (submitted (rounds ! k)) []
            \<and> mset (drained (rounds ! Suc k)) \<subseteq># mset (submitted (rounds ! k))"
  proof (intro allI impI)
    fix k
    assume k: "Suc k < length rounds"
    then have eq: "drained (rounds ! Suc k) = wait_all (sched (Suc k)) 0 (submitted (rounds ! k)) []"
      unfolding rounds_def using retry_rounds_next [of k sched m 1 failedQueue] by simp
    have "mset (wait_all (sched (Suc k)) 0 (submitted (rounds ! k)) [])
            \<subseteq># mset [] + mset (submitted (rounds ! k))"
      by (rule wait_all_mset)
    with eq show "drained (rounds ! Suc k) = wait_all (sched (Suc k)) 0 (submitted (rounds ! k)) []
            \<and> mset (drained (rounds ! Suc k)) \<subseteq># mset (submitted (rounds ! k))"
      by simp
  qed
  have pr': "processRetries sched cfgMaxRetries failedQueue =
      retry_rounds sched (if cfgMaxRetries \<le> 0 then 3 else cfgMaxRetries) 1 failedQueue"
    by (simp add: processRetries_def)
  show ?thesis
    unfolding Let_def pr'
    using a b c d e unfolding rounds_def m_def by (intro conjI) assumption+
qed


theorem processRetries_rounds_witness:
  "(let q = [\<lparr>imageRef = ''a'', retryCount = 0\<rparr>, \<lparr>imageRef = ''b'', retryCount = 3\<rparr>];
        r = processRetries (\<lambda>r n. (0, True)) 0 q;
        q' = [\<lparr>imageRef = ''a'', retryCount = 0\<rparr>, \<lparr>imageRef = ''b'', retryCount = 0\<rparr>,
              \<lparr>imageRef = ''c'', retryCount = 1\<rparr>];
        r' = processRetries (\<lambda>r n. (1, n \<noteq> 1)) 2 q'
    in snd r = []
       \<and> map drained (fst r) =
           [q, [\<lparr>imageRef = ''a'', retryCount = 1\<rparr>], [\<lparr>imageRef = ''a'', retryCount = 2\<rparr>],
            [\<lparr>imageRef = ''a'', retryCount = 3\<rparr>]]
       \<and> map warned (fst r) =
           [[\<lparr>imageRef = ''b'', retryCount = 3\<rparr>], [], [], [\<lparr>imageRef = ''a'', retryCount = 3\<rparr>]]
       \<and> map submitted (fst r) =
           [[\<lparr>imageRef = ''a'', retryCount = 1\<rparr>], [\<lparr>imageRef = ''a'', retryCount = 2\<rparr>],
            [\<lparr>imageRef = ''a'', retryCount = 3\<rparr>], []]
       \<and> snd r' = []
       \<and> map drained (fst r') =
           [q', [\<lparr>imageRef = ''b'', retryCount = 1\<rparr>, \<lparr>imageRef = ''a'', retryCount = 1\<rparr>],
            [\<lparr>imageRef = ''a'', retryCount = 2\<rparr>]]
       \<and> map warned (fst r') = [[], [], [\<lparr>imageRef = ''a'', retryCount = 2\<rparr>]])"
  using processRetries_rounds
    [of 0 "\<lambda>r n. (0, True)"
        "[\<lparr>imageRef = ''a'', retryCount = 0\<rparr>, \<lparr>imageRef = ''b'', retryCount = 3\<rparr>]"]
    processRetries_rounds
    [of 2 "\<lambda>r n. (1, n \<noteq> 1)"
        "[\<lparr>imageRef = ''a'', retryCount = 0\<rparr>, \<lparr>imageRef = ''b'', retryCount = 0\<rparr>,
          \<lparr>imageRef = ''c'', retryCount = 1\<rparr>]"]
  by (simp add: processRetries_def retry_rounds_unfold wait_all_unfold addFailedTask_def Let_def)

section \<open>Properties of the start with a deferred stop\<close>

lemma StartSandboxInstance_executors:
  "asyncStopExecutor (snd (StartSandboxInstance env m params timing w)) = asyncStopExecutor w
   \<and> asyncStressExecutor (snd (StartSandboxInstance env m params timing w)) = asyncStressExecutor w"
  by (simp add: StartSandboxInstance_def Let_def
      split: option.splits json_result.splits sdk_result.splits)

lemma with_stop_no_id:
  assumes "0 < delaySeconds"
    and "\<not> cp_Success (fst (StartSandboxInstance env m params timing w))
         \<or> instance_id_of (fst (StartSandboxInstance env m params timing w)) = None"
  shows "StartSandboxInstanceWithAsyncStop env m params delaySeconds timing rnd poolErr w
         = StartSandboxInstance env m params timing w"
  using assms
  by (cases "StartSandboxInstance env m params timing w")
     (auto simp: StartSandboxInstanceWithAsyncStop_def instance_id_of_def
        split: option.splits any.splits if_splits)

lemma with_stop_id:
  assumes "0 < delaySeconds"
    and "cp_Success (fst (StartSandboxInstance env m params timing w))"
    and "instance_id_of (fst (StartSandboxInstance env m params timing w)) = Some iid"
  shows "StartSandboxInstanceWithAsyncStop env m params delaySeconds timing rnd poolErr w
         = ((case poolErr of
               None \<Rightarrow> fst (StartSandboxInstance env m params timing w)
             | Some e \<Rightarrow> (fst (StartSandboxInstance env m params timing w))
                 \<lparr>cp_Success := False, cp_Error := ''failed to submit stop task: '' @ e\<rparr>),
            (snd (StartSandboxInstance env m params timing w))
              \<lparr>asyncStopExecutor :=
                 snd (Submit iid delaySeconds (StopTask iid) rnd poolErr (asyncStopExecutor w))\<rparr>)"
proof -
  obtain resp w1 where st: "StartSandboxInstance env m params timing w = (resp, w1)"
    by (cases "StartSandboxInstance env m params timing w")
  have ex: "asyncStopExecutor w1 = asyncStopExecutor w"
    using StartSandboxInstance_executors [of env m params timing w] st by simp
  from assms(2) st have ok: "cp_Success resp" by simp
  from assms(3) st obtain inst where i1: "cp_Data resp ''Instance'' = Some (AMap inst)"
    and i2: "inst ''InstanceId'' = Some (AString iid)" and i3: "iid \<noteq> []"
    by (auto simp: instance_id_of_def split: option.splits any.splits if_splits)
  show ?thesis
    using assms(1) ok i1 i2 i3
    by (cases poolErr)
       (simp_all add: StartSandboxInstanceWithAsyncStop_def st ex Submit_def Let_def)
qed

text \<open>
  Claim C9: for every parameter map, a call of StartSandboxInstanceWithAsyncStop with
  a delay that is zero or negative returns a response with Success false and the
  error \<open>delaySeconds must be greater than 0\<close> (all other fields at their zero
  values), and leaves the shared state as it was: no remote call is made, the start
  included, and no task is submitted.
\<close>

theorem async_stop_rejects_nonpositive_delay:
  "delaySeconds \<le> 0 \<Longrightarrow>
   StartSandboxInstanceWithAsyncStop env m params delaySeconds timing rnd poolErr w =
     (\<lparr>cp_Success = False, cp_Data = Map.empty,
       cp_Error = ''delaySeconds must be greater than 0'', cp_RequestID = [], cp_TimingMs = 0\<rparr>,
      w)"
  by (simp add: StartSandboxInstanceWithAsyncStop_def empty_response_def)

theorem async_stop_rejects_nonpositive_delay_witness:
  "StartSandboxInstanceWithAsyncStop demo_env demo_ags Map.empty 0 7 (1 / 2) None new_world =
     (\<lparr>cp_Success = False, cp_Data = Map.empty,
       cp_Error = ''delaySeconds must be greater than 0'', cp_RequestID = [], cp_TimingMs = 0\<rparr>,
      new_world)
   \<and> remote_calls
        (snd (StartSandboxInstanceWithAsyncStop demo_env demo_ags Map.empty (- 3) 7 (1 / 2) None
                new_world)) = []
   \<and> pendingCount (asyncStopExecutor
        (snd (StartSandboxInstanceWithAsyncStop demo_env demo_ags Map.empty (- 3) 7 (1 / 2) None
                new_world))) = 0"
  using async_stop_rejects_nonpositive_delay
    [where delaySeconds = 0 and env = demo_env and m = demo_ags and params = Map.empty
       and timing = 7 and rnd = "1 / 2" and poolErr = None and w = new_world]
    async_stop_rejects_nonpositive_delay
    [where delaySeconds = "- 3" and env = demo_env and m = demo_ags and params = Map.empty
       and timing = 7 and rnd = "1 / 2" and poolErr = None and w = new_world]
  by (simp add: new_world_def NewAsyncTaskExecutor_def)

text \<open>
  Claim C6: with a positive delay, when the start fails or its response has no
  instance identifier, StartSandboxInstanceWithAsyncStop leaves both executors as they
  were: no stop task is submitted. When the start succeeds, the identifier is found and
  the submission of the stop task returns an error, the returned response has Success
  false and the error \<open>failed to submit stop task:\<close> followed by the error of the
  submission.
\<close>

theorem async_stop_submission:
  "0 < delaySeconds \<Longrightarrow>
   (let start = StartSandboxInstance env m params timing w;
        res = StartSandboxInstanceWithAsyncStop env m params delaySeconds timing rnd poolErr w
    in (\<not> cp_Success (fst start) \<or> instance_id_of (fst start) = None \<longrightarrow>
          asyncStopExecutor (snd res) = asyncStopExecutor w
          \<and> asyncStressExecutor (snd res) = asyncStressExecutor w)
       \<and> (\<forall>iid e. cp_Success (fst start) \<and> instance_id_of (fst start) = Some iid
             \<and> poolErr = Some e \<longrightarrow>
             cp_Success (fst res) = False
             \<and> cp_Error (fst res) = ''failed to submit stop task: '' @ e
             \<and> pendingCount (asyncStopExecutor (snd res)) = pendingCount (asyncStopExecutor w) + 1
             \<and> pool (asyncStopExecutor (snd res)) = pool (asyncStopExecutor w)))"
proof -
  assume d: "0 < delaySeconds"
  let ?start = "StartSandboxInstance env m params timing w"
  let ?res = "StartSandboxInstanceWithAsyncStop env m params delaySeconds timing rnd poolErr w"
  have a: "asyncStopExecutor (snd ?res) = asyncStopExecutor w
           \<and> asyncStressExecutor (snd ?res) = asyncStressExecutor w"
    if "\<not> cp_Success (fst ?start) \<or> instance_id_of (fst ?start) = None"
    using with_stop_no_id [OF d that] StartSandboxInstance_executors [of env m params timing w]
    by simp
  have b: "cp_Success (fst ?res) = False
           \<and> cp_Error (fst ?res) = ''failed to submit stop task: '' @ e
           \<and> pendingCount (asyncStopExecutor (snd ?res)) = pendingCount (asyncStopExecutor w) + 1
           \<and> pool (asyncStopExecutor (snd ?res)) = pool (asyncStopExecutor w)"
    if "cp_Success (fst ?start) \<and> instance_id_of (fst ?start) = Some iid \<and> poolErr = Some e"
    for iid e
    using with_stop_id [OF d, of env m params timing w iid rnd poolErr] that
    by (simp add: Submit_def Let_def)
  show ?thesis unfolding Let_def using a b by blast
qed

theorem async_stop_submission_witness:
  "(let start = StartSandboxInstance demo_env demo_ags Map.empty 7 new_world;
        res = StartSandboxInstanceWithAsyncStop demo_env demo_ags Map.empty 5 7 (1 / 2)
                (Some ''pool closed'') new_world;
        res' = StartSandboxInstanceWithAsyncStop demo_env \<lparr>client = None\<rparr> Map.empty 5 7 (1 / 2)
                 None new_world
    in cp_Success (fst start) \<and> instance_id_of (fst start) = Some ''ins-1''
       \<and> \<not> cp_Success (fst res)
       \<and> cp_Error (fst res) = ''failed to submit stop task: pool closed''
       \<and> \<not> cp_Success (fst res') \<and> cp_Error (fst res') = ''client not initialized''
       \<and> pendingCount (asyncStopExecutor (snd res')) = 0
       \<and> pool (asyncStopExecutor (snd res')) = [])"
  using async_stop_submission
    [where delaySeconds = 5 and env = demo_env and m = demo_ags and params = Map.empty
       and timing = 7 and rnd = "1 / 2" and poolErr = "Some ''pool closed''" and w = new_world]
    async_stop_submission
    [where delaySeconds = 5 and env = demo_env and m = "\<lparr>client = None\<rparr>" and params = Map.empty
       and timing = 7 and rnd = "1 / 2" and poolErr = None and w = new_world]
  by (simp add: StartSandboxInstanceWithAsyncStop_def StartSandboxInstance_def instance_id_of_def
      empty_response_def demo_env_def demo_ags_def new_world_def NewAsyncTaskExecutor_def
      Submit_def Let_def)

text \<open>
  Claim C10: with a positive delay, when the start succeeds and its response has no
  non-empty string at Data.Instance.InstanceId, StartSandboxInstanceWithAsyncStop
  returns exactly what StartSandboxInstance returned, with Success true and every
  field as it was, and submits nothing to either executor. When the identifier is
  found and the pool accepts the stop task, the returned response is again exactly the
  response of the start, and the stop executor holds the new closure and counts it:
  in both cases the caller receives the response of the start unchanged, with Success
  true and no error set by the scheduling.
\<close>

theorem async_stop_unlocated_id_is_silent:
  "0 < delaySeconds \<Longrightarrow>
   (let start = StartSandboxInstance env m params timing w;
        res = StartSandboxInstanceWithAsyncStop env m params delaySeconds timing rnd poolErr w
    in (cp_Success (fst start) \<and> instance_id_of (fst start) = None \<longrightarrow>
          res = start \<and> cp_Success (fst res)
          \<and> asyncStopExecutor (snd res) = asyncStopExecutor w
          \<and> asyncStressExecutor (snd res) = asyncStressExecutor w)
       \<and> (\<forall>iid. cp_Success (fst start) \<and> instance_id_of (fst start) = Some iid
             \<and> poolErr = None \<longrightarrow>
             fst res = fst start \<and> cp_Success (fst res)
             \<and> asyncStopExecutor (snd res) =
                 (asyncStopExecutor w)
                   \<lparr>pendingCount := pendingCount (asyncStopExecutor w) + 1,
                    pool := pool (asyncStopExecutor w)
                            @ [Job iid (actualDelay delaySeconds rnd) (StopTask iid)]\<rparr>))"
proof -
  assume d: "0 < delaySeconds"
  let ?start = "StartSandboxInstance env m params timing w"
  let ?res = "StartSandboxInstanceWithAsyncStop env m params delaySeconds timing rnd poolErr w"
  have a: "?res = ?start \<and> cp_Success (fst ?res)
           \<and> asyncStopExecutor (snd ?res) = asyncStopExecutor w
           \<and> asyncStressExecutor (snd ?res) = asyncStressExecutor w"
    if "cp_Success (fst ?start) \<and> instance_id_of (fst ?start) = None"
    using with_stop_no_id [OF d, of env m params timing w rnd poolErr] that
      StartSandboxInstance_executors [of env m params timing w]
    by simp
  have b: "fst ?res = fst ?start \<and> cp_Success (fst ?res)
           \<and> asyncStopExecutor (snd ?res) =
                 (asyncStopExecutor w)
                   \<lparr>pendingCount := pendingCount (asyncStopExecutor w) + 1,
                    pool := pool (asyncStopExecutor w)
                            @ [Job iid (actualDelay delaySeconds rnd) (StopTask iid)]\<rparr>"
    if "cp_Success (fst ?start) \<and> instance_id_of (fst ?start) = Some iid \<and> poolErr = None"
    for iid
    using with_stop_id [OF d, of env m params timing w iid rnd poolErr] that
    by (simp add: Submit_def Let_def)
  show ?thesis unfolding Let_def using a b by blast
qed

theorem async_stop_unlocated_id_is_silent_witness:
  "(let env' = demo_env\<lparr>response_to_map := (\<lambda>r. Decoded [''Instance'' \<mapsto> AMap Map.empty])\<rparr>;
        res = StartSandboxInstanceWithAsyncStop env' demo_ags Map.empty 5 7 (1 / 2) None new_world;
        res' = StartSandboxInstanceWithAsyncStop demo_env demo_ags Map.empty 5 7 (1 / 2) None
                 new_world
    in cp_Success (fst (StartSandboxInstance env' demo_ags Map.empty 7 new_world))
       \<and> instance_id_of (fst (StartSandboxInstance env' demo_ags Map.empty 7 new_world)) = None
       \<and> cp_Success (fst res) \<and> cp_Error (fst res) = [] \<and> cp_RequestID (fst res) = ''req-1''
       \<and> pool (asyncStopExecutor (snd res)) = []
       \<and> pendingCount (asyncStopExecutor (snd res)) = 0
       \<and> remote_calls (snd res) = [StartCall ''request'']
       \<and> cp_Success (fst res') \<and> cp_Error (fst res') = [] \<and> cp_RequestID (fst res') = ''req-1''
       \<and> pool (asyncStopExecutor (snd res')) = [Job ''ins-1'' 5 (StopTask ''ins-1'')]
       \<and> pendingCount (asyncStopExecutor (snd res')) = 1)"
  using async_stop_unlocated_id_is_silent
    [where delaySeconds = 5
       and env = "demo_env\<lparr>response_to_map := (\<lambda>r. Decoded [''Instance'' \<mapsto> AMap Map.empty])\<rparr>"
       and m = demo_ags and params = Map.empty
       and timing = 7 and rnd = "1 / 2" and poolErr = None and w = new_world]
    async_stop_unlocated_id_is_silent
    [where delaySeconds = 5 and env = demo_env and m = demo_ags and params = Map.empty
       and timing = 7 and rnd = "1 / 2" and poolErr = None and w = new_world]
  by (simp add: StartSandboxInstanceWithAsyncStop_def StartSandboxInstance_def instance_id_of_def
      empty_response_def demo_env_def demo_ags_def new_world_def NewAsyncTaskExecutor_def
      Submit_def Let_def actualDelay_def)


section \<open>Properties of the stress chains\<close>


lemma actualDelay_zero [simp]: "actualDelay 0 rnd = 0"
  by (simp add: actualDelay_def)




lemma length_round_responses [simp]:
  "length (round_responses env ident port k cfgs) = length cfgs"
  by (induction cfgs arbitrary: k) auto












end
